theory Spec2Isabelle
  imports Main
begin

section \<open>Values shared by the components\<close>

text \<open>
  Hook events and log records are JSON documents. Their payloads (tool parameters, tool
  results, conversation messages) are kept as JSON values; a JSON object is the list of
  its key/value items, read with \<open>map_of\<close> as Python's \<open>dict.get\<close>.
  Numbers are restricted to integers. The wall clock (\<open>datetime.now()\<close>) is an
  explicit reading \<open>now\<close> handed to every operation that consults it; an operation that
  reads the clock more than once uses the one reading.
\<close>

datatype json =
    JNull
  | JBool bool
  | JNum int
  | JStr string
  | JArr "json list"
  | JObj "(string \<times> json) list"

datatype py_error = AttributeError

section \<open>Session state (state\_manager.py)\<close>

datatype SessionPhase =
    IDLE
  | PROCESSING
  | RUNNING_TOOL
  | WAITING_APPROVAL
  | COMPLETED
  | ERROR

record Tool =
  name :: string
  status :: string
  start_time :: nat
  end_time :: "nat option"
  result :: "json option"
  parameters :: "json option"

text \<open>
  The dictionary stored in \<open>Session.pending_approval\<close> has exactly the keys
  \<open>tool_name\<close>, \<open>parameters\<close> and \<open>timestamp\<close>.
\<close>

record approval =
  ap_tool_name :: string
  ap_parameters :: json
  ap_timestamp :: nat

record Session =
  session_id :: string
  phase :: SessionPhase
  active_tool :: "Tool option"
  pending_approval :: "approval option"
  tools :: "Tool list"
  conversation :: "json list"
  created_at :: nat
  updated_at :: nat

text \<open>
  A hook event is a dictionary whose entries the store reads with \<open>event.get\<close>. The
  model keeps the entries the store reads, each optional (\<open>None\<close> when the key is
  missing). Following the annotations of the source (\<open>sessions: dict[str, Session]\<close>,
  \<open>Tool.name: str\<close>) and the hook wire format, \<open>type\<close>, \<open>session_id\<close> and
  \<open>tool_name\<close> are strings when present.
\<close>

record event =
  ev_type :: "string option"
  ev_session_id :: "string option"
  ev_tool_name :: "string option"
  ev_parameters :: "json option"
  ev_result :: "json option"

text \<open>
  The store: the session dictionary and the cache that correlates \<open>PreToolUse\<close> with
  \<open>PermissionRequest\<close>. Observers are called after each mutation with the session; the
  store catches whatever they raise and they do not write to the store, so they are left
  out of the state.
\<close>

record SessionStore =
  sessions :: "string \<rightharpoonup> Session"
  pending_tool_cache :: "string \<rightharpoonup> Tool"

definition empty_store :: SessionStore where
  "empty_store = \<lparr>sessions = Map.empty, pending_tool_cache = Map.empty\<rparr>"

text \<open>\<open>Session(session_id=session_id, phase=SessionPhase.IDLE)\<close> with the dataclass defaults.\<close>

definition new_session :: "string \<Rightarrow> nat \<Rightarrow> Session" where
  "new_session sid now =
     \<lparr>session_id = sid, phase = IDLE, active_tool = None, pending_approval = None,
      tools = [], conversation = [], created_at = now, updated_at = now\<rparr>"

text \<open>\<open>event.get("tool_name", "Unknown")\<close>\<close>

definition event_tool_name :: "event \<Rightarrow> string" where
  "event_tool_name ev = (case ev_tool_name ev of None \<Rightarrow> ''Unknown'' | Some n \<Rightarrow> n)"

text \<open>\<open>f"{session.session_id}:{tool_name}"\<close>\<close>

definition cache_key :: "Session \<Rightarrow> string \<Rightarrow> string" where
  "cache_key session tool_name = session_id session @ '':'' @ tool_name"

definition handle_session_start :: "Session \<Rightarrow> event \<Rightarrow> Session" where
  "handle_session_start session ev = session\<lparr>phase := IDLE\<rparr>"

definition handle_session_end :: "Session \<Rightarrow> event \<Rightarrow> Session" where
  "handle_session_end session ev = session\<lparr>phase := COMPLETED\<rparr>"

definition handle_user_prompt :: "Session \<Rightarrow> event \<Rightarrow> Session" where
  "handle_user_prompt session ev = session\<lparr>phase := PROCESSING\<rparr>"

text \<open>
  The two tool handlers also write the cache, so they take and return the session together
  with the cache. The \<open>Tool\<close> object that \<open>PreToolUse\<close> stores in the cache is the one
  in \<open>active_tool\<close>; \<open>PostToolUse\<close> mutates it only when its name is the event's tool
  name, and then removes the very cache entry that holds it, so no mutated tool stays
  visible through the cache and the tools are modelled as values.
\<close>

definition handle_pre_tool_use ::
  "nat \<Rightarrow> Session \<times> (string \<rightharpoonup> Tool) \<Rightarrow> event \<Rightarrow> Session \<times> (string \<rightharpoonup> Tool)" where
  "handle_pre_tool_use now sc ev =
     (let session = fst sc; cache = snd sc;
          tool_name = event_tool_name ev;
          tool = \<lparr>name = tool_name, status = ''running'', start_time = now,
                  end_time = None, result = None, parameters = ev_parameters ev\<rparr>
      in (session\<lparr>active_tool := Some tool, phase := RUNNING_TOOL\<rparr>,
          cache(cache_key session tool_name \<mapsto> tool)))"

definition handle_post_tool_use ::
  "nat \<Rightarrow> Session \<times> (string \<rightharpoonup> Tool) \<Rightarrow> event \<Rightarrow> Session \<times> (string \<rightharpoonup> Tool)" where
  "handle_post_tool_use now sc ev =
     (let session = fst sc; cache = snd sc;
          tool_name = event_tool_name ev;
          session1 =
            (case active_tool session of
               None \<Rightarrow> session
             | Some tool \<Rightarrow>
                 if name tool = tool_name
                 then session\<lparr>tools := tools session @
                         [tool\<lparr>end_time := Some now, status := ''success'',
                               result := ev_result ev\<rparr>],
                       active_tool := None\<rparr>
                 else session)
      in (session1\<lparr>phase := IDLE\<rparr>, cache(cache_key session tool_name := None)))"

definition handle_permission_request :: "nat \<Rightarrow> Session \<Rightarrow> event \<Rightarrow> Session" where
  "handle_permission_request now session ev =
     session\<lparr>pending_approval :=
                Some \<lparr>ap_tool_name = event_tool_name ev,
                      ap_parameters = (case ev_parameters ev of None \<Rightarrow> JObj [] | Some p \<Rightarrow> p),
                      ap_timestamp = now\<rparr>,
             phase := WAITING_APPROVAL\<rparr>"

definition handle_notification :: "Session \<Rightarrow> event \<Rightarrow> Session" where
  "handle_notification session ev = session"

definition handle_stop :: "Session \<Rightarrow> event \<Rightarrow> Session" where
  "handle_stop session ev = session\<lparr>phase := IDLE, active_tool := None\<rparr>"

text \<open>The \<open>if\<close>/\<open>elif\<close> chain of \<open>process_event\<close>, in the order of the source.\<close>

definition dispatch ::
  "nat \<Rightarrow> Session \<times> (string \<rightharpoonup> Tool) \<Rightarrow> event \<Rightarrow> Session \<times> (string \<rightharpoonup> Tool)" where
  "dispatch now sc ev =
     (let session = fst sc; cache = snd sc; event_type = ev_type ev in
      if event_type = Some ''SessionStart'' then (handle_session_start session ev, cache)
      else if event_type = Some ''SessionEnd'' then (handle_session_end session ev, cache)
      else if event_type = Some ''UserPromptSubmit'' then (handle_user_prompt session ev, cache)
      else if event_type = Some ''PreToolUse'' then handle_pre_tool_use now sc ev
      else if event_type = Some ''PostToolUse'' then handle_post_tool_use now sc ev
      else if event_type = Some ''PermissionRequest''
        then (handle_permission_request now session ev, cache)
      else if event_type = Some ''Notification'' then (handle_notification session ev, cache)
      else if event_type = Some ''Stop'' \<or> event_type = Some ''SubagentStop''
        then (handle_stop session ev, cache)
      else sc)"

text \<open>
  \<open>SessionStore.process_event\<close>. \<open>not session_id\<close> holds for a missing and for an empty
  identifier; the event is then dropped before anything is written.
\<close>

definition process_event :: "nat \<Rightarrow> event \<Rightarrow> SessionStore \<Rightarrow> SessionStore" where
  "process_event now ev st =
     (case ev_session_id ev of
        None \<Rightarrow> st
      | Some sid \<Rightarrow>
          if sid = [] then st
          else
            let session = (case sessions st sid of
                             None \<Rightarrow> new_session sid now
                           | Some s \<Rightarrow> s);
                session = session\<lparr>updated_at := now\<rparr>;
                sc = dispatch now (session, pending_tool_cache st) ev
            in \<lparr>sessions = (sessions st)(sid \<mapsto> fst sc), pending_tool_cache = snd sc\<rparr>)"

text \<open>
  \<open>SessionStore.add_message\<close>. The debug line evaluates \<open>message.get("type", "unknown")\<close>
  after the message has been appended, which raises for a record that is not a JSON object;
  the error is returned beside the store as it is at that moment.
\<close>

definition add_message ::
  "nat \<Rightarrow> string \<Rightarrow> json \<Rightarrow> SessionStore \<Rightarrow> SessionStore \<times> py_error option" where
  "add_message now sid message st =
     (case sessions st sid of
        None \<Rightarrow> (st, None)
      | Some session \<Rightarrow>
          let st1 = st\<lparr>sessions := (sessions st)(sid \<mapsto>
                         session\<lparr>conversation := conversation session @ [message],
                                 updated_at := now\<rparr>)\<rparr>
          in (case message of
                JObj items \<Rightarrow> (st1, None)
              | _ \<Rightarrow> (st1, Some AttributeError)))"

definition clear_approval :: "string \<Rightarrow> SessionStore \<Rightarrow> SessionStore" where
  "clear_approval sid st =
     (case sessions st sid of
        None \<Rightarrow> st
      | Some session \<Rightarrow>
          st\<lparr>sessions := (sessions st)(sid \<mapsto>
                session\<lparr>pending_approval := None, phase := IDLE\<rparr>)\<rparr>)"

definition get_session :: "SessionStore \<Rightarrow> string \<Rightarrow> Session option" where
  "get_session st sid = sessions st sid"

text \<open>
  The calls a client of the store can make, and their application in sequence. An error
  raised by \<open>add_message\<close> reaches the caller after the store was written; the store goes on
  from that state.
\<close>

datatype store_op =
    ProcessEvent nat event
  | AddMessage nat string json
  | ClearApproval string

fun apply_op :: "store_op \<Rightarrow> SessionStore \<Rightarrow> SessionStore" where
  "apply_op (ProcessEvent now ev) st = process_event now ev st"
| "apply_op (AddMessage now sid message) st = fst (add_message now sid message st)"
| "apply_op (ClearApproval sid) st = clear_approval sid st"

fun apply_ops :: "store_op list \<Rightarrow> SessionStore \<Rightarrow> SessionStore" where
  "apply_ops [] st = st"
| "apply_ops (x # xs) st = apply_ops xs (apply_op x st)"

text \<open>An event with the given type and session, and one for a named tool.\<close>

definition mk_event :: "string \<Rightarrow> string \<Rightarrow> event" where
  "mk_event ty sid =
     \<lparr>ev_type = Some ty, ev_session_id = Some sid, ev_tool_name = None,
      ev_parameters = None, ev_result = None\<rparr>"

definition mk_tool_event :: "string \<Rightarrow> string \<Rightarrow> string \<Rightarrow> json option \<Rightarrow> json option \<Rightarrow> event" where
  "mk_tool_event ty sid tool ps res =
     \<lparr>ev_type = Some ty, ev_session_id = Some sid, ev_tool_name = Some tool,
      ev_parameters = ps, ev_result = res\<rparr>"

section \<open>The hook endpoint (socket\_server.py)\<close>

text \<open>
  Every connection has its own \<open>StreamWriter\<close>, named by a number. The server keeps
  writers in \<open>pending_approvals\<close> and uses them after \<open>handle_client\<close> has returned, so the
  writers live in a store: for each writer the operations performed on it, oldest first.
  A frame is the dictionary handed to \<open>json.dumps\<close>, as its list of items.
\<close>

type_synonym frame = "(string \<times> string) list"

datatype writer_op = Write frame | Drain | Close

record HookSocketServer =
  session_store :: SessionStore
  pending_approvals :: "string \<rightharpoonup> nat"
  writers :: "nat \<Rightarrow> writer_op list"

definition new_server :: HookSocketServer where
  "new_server = \<lparr>session_store = empty_store, pending_approvals = Map.empty,
                  writers = (\<lambda>w. [])\<rparr>"

definition writer_do :: "nat \<Rightarrow> writer_op \<Rightarrow> HookSocketServer \<Rightarrow> HookSocketServer" where
  "writer_do w x srv = srv\<lparr>writers := (writers srv)(w := writers srv w @ [x])\<rparr>"

definition waiting_frame :: frame where
  "waiting_frame = [(''status'', ''waiting_for_approval'')]"

definition decision_frame :: "string \<Rightarrow> frame" where
  "decision_frame decision =
     [(''decision'', decision), (''reason'', ''User decision from frontend'')]"

text \<open>
  \<open>HookSocketServer.process_event\<close>: the store is updated first; a \<open>PermissionRequest\<close>
  registers the writer under a non-empty session identifier and is answered with the
  waiting frame in any case.
\<close>

definition server_process_event ::
  "nat \<Rightarrow> event \<Rightarrow> nat \<Rightarrow> HookSocketServer \<Rightarrow> frame option \<times> HookSocketServer" where
  "server_process_event now ev writer srv =
     (let srv1 = srv\<lparr>session_store := process_event now ev (session_store srv)\<rparr> in
      if ev_type ev = Some ''PermissionRequest'' then
        (Some waiting_frame,
         (case ev_session_id ev of
            None \<Rightarrow> srv1
          | Some sid \<Rightarrow>
              if sid = [] then srv1
              else srv1\<lparr>pending_approvals := (pending_approvals srv1)(sid \<mapsto> writer)\<rparr>))
      else (None, srv1))"

text \<open>
  What one connection delivers: nothing, bytes that do not decode to a JSON object, or an
  event. \<open>handle_client\<close> closes the writer on every path (\<open>finally\<close>).
\<close>

datatype payload = NoData | Malformed | Hook event

definition handle_client :: "nat \<Rightarrow> payload \<Rightarrow> nat \<Rightarrow> HookSocketServer \<Rightarrow> HookSocketServer" where
  "handle_client now data writer srv =
     (case data of
        NoData \<Rightarrow> writer_do writer Close srv
      | Malformed \<Rightarrow> writer_do writer Close srv
      | Hook ev \<Rightarrow>
          (case server_process_event now ev writer srv of
             (None, srv1) \<Rightarrow> writer_do writer Close srv1
           | (Some response, srv1) \<Rightarrow>
               writer_do writer Close
                 (writer_do writer Drain (writer_do writer (Write response) srv1))))"

text \<open>
  \<open>send_approval_response\<close>, called when the frontend sends a decision: the frame is
  written to the registered writer, the registration is deleted and the store's approval
  cleared.
\<close>

definition send_approval_response :: "string \<Rightarrow> string \<Rightarrow> HookSocketServer \<Rightarrow> HookSocketServer" where
  "send_approval_response sid decision srv =
     (case pending_approvals srv sid of
        None \<Rightarrow> srv
      | Some writer \<Rightarrow>
          let srv1 = writer_do writer (Write (decision_frame decision)) srv;
              srv2 = srv1\<lparr>pending_approvals := (pending_approvals srv1)(sid := None)\<rparr>
          in srv2\<lparr>session_store := clear_approval sid (session_store srv2)\<rparr>)"

text \<open>
  The server is driven by two inputs only: a hook connection (at a clock reading, with its
  payload and writer) and a decision of the frontend. Nothing in the server runs on the
  passing of time, so between two inputs its state stays as it is.
\<close>

datatype server_input =
    Connection nat payload nat
  | Decision string string

fun server_step :: "server_input \<Rightarrow> HookSocketServer \<Rightarrow> HookSocketServer" where
  "server_step (Connection now data writer) srv = handle_client now data writer srv"
| "server_step (Decision sid decision) srv = send_approval_response sid decision srv"

fun server_run :: "server_input list \<Rightarrow> HookSocketServer \<Rightarrow> HookSocketServer" where
  "server_run [] srv = srv"
| "server_run (x # xs) srv = server_run xs (server_step x srv)"

section \<open>The log tailer (conversation\_parser.py)\<close>

text \<open>
  A character is a code point below 256, in a decoded string as in the log, where it takes
  one byte (as in an ASCII log, in which JSON writes other characters as escapes), so that
  offsets count characters. A file is its content, or \<open>None\<close> when it does not exist.

  The log is opened in text mode, which ends a line at a line feed, at a carriage return
  followed by a line feed, and at a carriage return alone, and hands each of the three on
  as a line feed. \<open>readlines\<close> is the iteration \<open>for line in f\<close>: each line keeps its
  line end, and what follows the last line end is a last line without one.
  \<open>universal_newlines\<close> is the text that the lines make up.
\<close>

fun lines_from :: "string \<Rightarrow> string \<Rightarrow> string list" where
  "lines_from cur [] = (if cur = [] then [] else [cur])"
| "lines_from cur [c] =
     (if c = CHR 0x0A \<or> c = CHR 0x0D then [cur @ [CHR 0x0A]] else [cur @ [c]])"
| "lines_from cur (c # d # ds) =
     (if c = CHR 0x0A then (cur @ [CHR 0x0A]) # lines_from [] (d # ds)
      else if c = CHR 0x0D then
        (if d = CHR 0x0A then (cur @ [CHR 0x0A]) # lines_from [] ds
         else (cur @ [CHR 0x0A]) # lines_from [] (d # ds))
      else lines_from (cur @ [c]) (d # ds))"

definition readlines :: "string \<Rightarrow> string list" where
  "readlines s = lines_from [] s"


text \<open>The characters below 256 that \<open>str.strip()\<close> removes (\<open>str.isspace\<close>).\<close>

definition is_space :: "char \<Rightarrow> bool" where
  "is_space c \<longleftrightarrow>
     c \<in> set [CHR '' '', CHR 0x09, CHR 0x0A, CHR 0x0B, CHR 0x0C, CHR 0x0D,
              CHR 0x1C, CHR 0x1D, CHR 0x1E, CHR 0x1F, CHR 0x85, CHR 0xA0]"

definition strip :: "string \<Rightarrow> string" where
  "strip s = rev (dropWhile is_space (rev (dropWhile is_space s)))"

definition startswith :: "string \<Rightarrow> string \<Rightarrow> bool" where
  "startswith s p \<longleftrightarrow> take (length p) s = p"

text \<open>
  \<open>json.loads\<close> is a parameter \<open>loads\<close> of the parser. It returns the decoded value,
  raises \<open>JSONDecodeError\<close>, which the loop catches line by line, or raises another
  exception (a \<open>RecursionError\<close> on deep nesting), which only the outer \<open>except\<close> catches.
\<close>

datatype loaded = Decoded json | JSONDecodeError | OtherError

text \<open>
  The loop of \<open>parse_incremental\<close> over the lines read: the messages so far, and whether
  the loop ran to its end (\<open>False\<close> when an exception left it).
\<close>

fun parse_lines :: "(string \<Rightarrow> loaded) \<Rightarrow> string list \<Rightarrow> json list \<Rightarrow> json list \<times> bool" where
  "parse_lines loads [] new_messages = (new_messages, True)"
| "parse_lines loads (l # ls) new_messages =
     (let line = strip l in
      if line = [] then parse_lines loads ls new_messages
      else (case loads line of
              Decoded message \<Rightarrow> parse_lines loads ls (new_messages @ [message])
            | JSONDecodeError \<Rightarrow> parse_lines loads ls new_messages
            | OtherError \<Rightarrow> (new_messages, False)))"

text \<open>
  \<open>parse_incremental\<close> returns the new messages and the new \<open>last_position\<close>. After
  the loop \<open>f.tell()\<close> is the end of the file, or the position sought when that lies
  beyond the end. When an exception leaves the loop, the outer \<open>except\<close> logs it, the
  position stays as it was, and the messages decoded so far are returned.
\<close>

definition parse_incremental ::
  "(string \<Rightarrow> loaded) \<Rightarrow> string option \<Rightarrow> nat \<Rightarrow> json list \<times> nat" where
  "parse_incremental loads file last_position =
     (case file of
        None \<Rightarrow> ([], last_position)
      | Some content \<Rightarrow>
          (case parse_lines loads (readlines (drop last_position content)) [] of
             (new_messages, True) \<Rightarrow> (new_messages, max last_position (length content))
           | (new_messages, False) \<Rightarrow> (new_messages, last_position)))"

definition parse_full :: "(string \<Rightarrow> loaded) \<Rightarrow> string option \<Rightarrow> json list \<times> nat" where
  "parse_full loads file = parse_incremental loads file 0"

text \<open>
  \<open>detect_clear_command\<close>. \<open>message.get\<close> raises for a record that is not a JSON object,
  and \<open>content.strip()\<close> for a content that is not a string.
\<close>

fun detect_clear_command :: "json list \<Rightarrow> py_error + bool" where
  "detect_clear_command [] = Inr False"
| "detect_clear_command (message # messages) =
     (case message of
        JObj items \<Rightarrow>
          if map_of items ''type'' = Some (JStr ''user'') then
            (case (case map_of items ''content'' of None \<Rightarrow> JStr [] | Some c \<Rightarrow> c) of
               JStr content \<Rightarrow>
                 if startswith (strip content) ''/clear'' then Inr True
                 else detect_clear_command messages
             | _ \<Rightarrow> Inl AttributeError)
          else detect_clear_command messages
      | _ \<Rightarrow> Inl AttributeError)"








section \<open>The file handler (file\_monitor.py)\<close>

text \<open>
  The handler owns one parser per session, that is one \<open>last_position\<close>, and writes to the
  session store. \<open>on_modified\<close> is modelled for a modification of a session's
  \<open>conversation.jsonl\<close> that has passed the debounce; \<open>file\<close> is the log at that moment.
  An error leaves the handler as it was written up to the raise.
\<close>

record ConversationFileHandler =
  handler_store :: SessionStore
  parsers :: "string \<rightharpoonup> nat"

definition new_handler :: "SessionStore \<Rightarrow> ConversationFileHandler" where
  "new_handler st = \<lparr>handler_store = st, parsers = Map.empty\<rparr>"

text \<open>\<open>session = get_session(session_id); if session: session.conversation.clear()\<close>\<close>

definition clear_conversation :: "string \<Rightarrow> SessionStore \<Rightarrow> SessionStore" where
  "clear_conversation sid st =
     (case get_session st sid of
        None \<Rightarrow> st
      | Some session \<Rightarrow> st\<lparr>sessions := (sessions st)(sid \<mapsto> session\<lparr>conversation := []\<rparr>)\<rparr>)"

fun add_messages ::
  "nat \<Rightarrow> string \<Rightarrow> json list \<Rightarrow> SessionStore \<Rightarrow> SessionStore \<times> py_error option" where
  "add_messages now sid [] st = (st, None)"
| "add_messages now sid (message # messages) st =
     (case add_message now sid message st of
        (st1, Some e) \<Rightarrow> (st1, Some e)
      | (st1, None) \<Rightarrow> add_messages now sid messages st1)"

definition on_modified ::
  "(string \<Rightarrow> loaded) \<Rightarrow> nat \<Rightarrow> string \<Rightarrow> string option \<Rightarrow> ConversationFileHandler
     \<Rightarrow> ConversationFileHandler \<times> py_error option" where
  "on_modified loads now sid file h =
     (let last_position = (case parsers h sid of None \<Rightarrow> 0 | Some p \<Rightarrow> p);
          parsed = parse_incremental loads file last_position;
          new_messages = fst parsed;
          h1 = h\<lparr>parsers := (parsers h)(sid \<mapsto> snd parsed)\<rparr>
      in case detect_clear_command new_messages of
           Inl e \<Rightarrow> (h1, Some e)
         | Inr clear \<Rightarrow>
             let h2 = (if clear
                       then h1\<lparr>parsers := (parsers h1)(sid \<mapsto> 0),
                               handler_store := clear_conversation sid (handler_store h1)\<rparr>
                       else h1);
                 added = add_messages now sid new_messages (handler_store h2)
             in (h2\<lparr>handler_store := fst added\<rparr>, snd added))"

definition on_created ::
  "(string \<Rightarrow> loaded) \<Rightarrow> nat \<Rightarrow> string \<Rightarrow> string option \<Rightarrow> ConversationFileHandler
     \<Rightarrow> ConversationFileHandler \<times> py_error option" where
  "on_created loads now sid file h =
     (let parsed = parse_full loads file;
          h1 = h\<lparr>parsers := (parsers h)(sid \<mapsto> snd parsed)\<rparr>;
          added = add_messages now sid (fst parsed) (handler_store h1)
      in (h1\<lparr>handler_store := fst added\<rparr>, snd added))"

section \<open>Sequences of events and comparison of stores\<close>

text \<open>The event types that the \<open>if\<close>/\<open>elif\<close> chain of \<open>process_event\<close> handles.\<close>

definition handled_types :: "string list" where
  "handled_types = [''SessionStart'', ''SessionEnd'', ''UserPromptSubmit'', ''PreToolUse'',
     ''PostToolUse'', ''PermissionRequest'', ''Notification'', ''Stop'', ''SubagentStop'']"

text \<open>A sequence of hook events, each with the clock reading at which it is processed.\<close>

fun process_events :: "(nat \<times> event) list \<Rightarrow> SessionStore \<Rightarrow> SessionStore" where
  "process_events [] st = st"
| "process_events (x # xs) st = process_events xs (process_event (fst x) (snd x) st)"

text \<open>
  A session without its two timestamps, and the relation between two stores that agree on
  everything but one session \<open>k0\<close>: there they agree up to the timestamps, or the second
  store has a session as new where the first has none.
\<close>

definition untimed :: "Session \<Rightarrow> Session" where
  "untimed s = s\<lparr>created_at := 0, updated_at := 0\<rparr>"

definition similar :: "string \<Rightarrow> SessionStore \<Rightarrow> SessionStore \<Rightarrow> bool" where
  "similar k0 X Y \<longleftrightarrow>
     pending_tool_cache Y = pending_tool_cache X
     \<and> (\<forall>k. k \<noteq> k0 \<longrightarrow> sessions Y k = sessions X k)
     \<and> (case sessions X k0 of
          Some s \<Rightarrow> map_option untimed (sessions Y k0) = Some (untimed s)
        | None \<Rightarrow> sessions Y k0 = None
                  \<or> map_option untimed (sessions Y k0) = Some (untimed (new_session k0 0)))"

section \<open>Frames of the specification and example inputs\<close>

text \<open>
  The specification names two frames that the server nowhere builds: the denial on a
  deadline and the denial of a superseded request. They are defined here to state what
  the server writes and what it does not.
\<close>

definition timeout_frame :: frame where
  "timeout_frame = [(''decision'', ''deny''), (''reason'', ''timeout'')]"

definition superseded_frame :: frame where
  "superseded_frame = [(''decision'', ''deny''), (''reason'', ''superseded'')]"

text \<open>A permission request followed by a user prompt, for one session.\<close>

definition approval_then_prompt :: "store_op list" where
  "approval_then_prompt =
     [ProcessEvent 1 (mk_tool_event ''PermissionRequest'' ''A'' ''Bash''
        (Some (JObj [(''cmd'', JStr ''ls'')])) None),
      ProcessEvent 2 (mk_event ''UserPromptSubmit'' ''A'')]"

text \<open>A store whose session \<open>A\<close> is processing a prompt, with no tool running.\<close>

definition processing_store :: SessionStore where
  "processing_store = process_event 1 (mk_event ''UserPromptSubmit'' ''A'') empty_store"

text \<open>A store whose session \<open>A\<close> runs the tool \<open>Read\<close>, and the event ending it with an
  error payload.\<close>

definition running_store :: SessionStore where
  "running_store =
     process_event 1 (mk_tool_event ''PreToolUse'' ''A'' ''Read'' None None) empty_store"

definition failed_read :: event where
  "failed_read = mk_tool_event ''PostToolUse'' ''A'' ''Read'' None
                   (Some (JObj [(''error'', JStr ''no such file'')]))"

text \<open>The permission requests of the approval scenarios.\<close>

definition bash_request :: "string \<Rightarrow> event" where
  "bash_request sid = mk_tool_event ''PermissionRequest'' sid ''Bash''
                        (Some (JObj [(''cmd'', JStr ''ls'')])) None"

text \<open>A store whose session \<open>A\<close> waits for an approval.\<close>

definition awaiting_store :: SessionStore where
  "awaiting_store = process_event 1 (bash_request ''A'') empty_store"

text \<open>A user message of the log, a store that knows session \<open>B\<close> only, and an event of
  a type that the store does not handle.\<close>

definition user_hello :: json where
  "user_hello = JObj [(''type'', JStr ''user''), (''content'', JStr ''Hello'')]"

definition session_b_store :: SessionStore where
  "session_b_store = process_event 1 (mk_event ''SessionStart'' ''B'') empty_store"

definition unknown_for_b :: event where
  "unknown_for_b = mk_event ''FooBar'' ''B''"

definition unknown_for_none :: event where
  "unknown_for_none = \<lparr>ev_type = Some ''FooBar'', ev_session_id = None, ev_tool_name = None,
                        ev_parameters = None, ev_result = None\<rparr>"


















section \<open>The event reducer\<close>

lemmas handler_defs = handle_session_start_def handle_session_end_def handle_user_prompt_def
  handle_pre_tool_use_def handle_post_tool_use_def handle_permission_request_def
  handle_notification_def handle_stop_def

lemma process_event_some:
  "sid \<noteq> [] \<Longrightarrow> ev_session_id ev = Some sid \<Longrightarrow>
   process_event now ev st =
     (let sc = dispatch now ((case sessions st sid of None \<Rightarrow> new_session sid now | Some s \<Rightarrow> s)
                 \<lparr>updated_at := now\<rparr>, pending_tool_cache st) ev
      in \<lparr>sessions = (sessions st)(sid \<mapsto> fst sc), pending_tool_cache = snd sc\<rparr>)"
  by (simp add: process_event_def Let_def)

text \<open>
  C9. Happy-path tool call: \<open>SessionStart\<close>, \<open>UserPromptSubmit\<close>, \<open>PreToolUse(Read)\<close>,
  \<open>PostToolUse(Read)\<close> for one session, applied to any store, give the phases idle,
  processing, running\_tool, idle; afterwards \<open>active_tool\<close> is \<open>None\<close> and \<open>tools\<close>
  is what it was before with the completed \<open>Read\<close> tool, its end time set, appended: one
  tool longer, so of length exactly 1 for a session that had completed no tool.
\<close>

theorem happy_path_tool_call:
  assumes sid: "sid \<noteq> []"
  shows "let prior = (case sessions st sid of None \<Rightarrow> [] | Some s \<Rightarrow> tools s);
             st1 = process_event t1 (mk_event ''SessionStart'' sid) st;
             st2 = process_event t2 (mk_event ''UserPromptSubmit'' sid) st1;
             st3 = process_event t3 (mk_tool_event ''PreToolUse'' sid ''Read'' ps None) st2;
             st4 = process_event t4 (mk_tool_event ''PostToolUse'' sid ''Read'' None res) st3
         in map_option phase (sessions st1 sid) = Some IDLE
          \<and> map_option phase (sessions st2 sid) = Some PROCESSING
          \<and> map_option phase (sessions st3 sid) = Some RUNNING_TOOL
          \<and> map_option phase (sessions st4 sid) = Some IDLE
          \<and> map_option tools (sessions st4 sid) =
              Some (prior @ [\<lparr>name = ''Read'', status = ''success'', start_time = t3,
                     end_time = Some t4, result = res, parameters = ps\<rparr>])
          \<and> map_option (\<lambda>s. length (tools s)) (sessions st4 sid) = Some (length prior + 1)
          \<and> map_option active_tool (sessions st4 sid) = Some None"
  using sid
  by (cases "sessions st sid")
     (simp_all add: process_event_def mk_event_def mk_tool_event_def dispatch_def handler_defs
        new_session_def event_tool_name_def Let_def)

text \<open>
  C9 at session \<open>A\<close> of a store in which it is processing a prompt, so that
  \<open>SessionStart\<close> changes its phase.
\<close>

theorem happy_path_tool_call_witness:
  "let st1 = process_event 2 (mk_event ''SessionStart'' ''A'') processing_store;
       st2 = process_event 3 (mk_event ''UserPromptSubmit'' ''A'') st1;
       st3 = process_event 4 (mk_tool_event ''PreToolUse'' ''A'' ''Read''
               (Some (JObj [(''file'', JStr ''/x'')])) None) st2;
       st4 = process_event 5 (mk_tool_event ''PostToolUse'' ''A'' ''Read'' None
               (Some (JObj [(''ok'', JBool True)]))) st3
   in ''A'' \<noteq> []
    \<and> map_option phase (sessions processing_store ''A'') = Some PROCESSING
    \<and> map_option phase (sessions st1 ''A'') = Some IDLE
    \<and> map_option phase (sessions st2 ''A'') = Some PROCESSING
    \<and> map_option phase (sessions st3 ''A'') = Some RUNNING_TOOL
    \<and> map_option phase (sessions st4 ''A'') = Some IDLE
    \<and> map_option tools (sessions st4 ''A'') =
        Some [\<lparr>name = ''Read'', status = ''success'', start_time = 4,
               end_time = Some 5, result = Some (JObj [(''ok'', JBool True)]),
               parameters = Some (JObj [(''file'', JStr ''/x'')])\<rparr>]
    \<and> map_option (\<lambda>s. length (tools s)) (sessions st4 ''A'') = Some 1
    \<and> map_option active_tool (sessions st4 ''A'') = Some None"
proof -
  have a: "''A'' \<noteq> []" by simp
  have b: "sessions processing_store ''A'' =
             Some \<lparr>session_id = ''A'', phase = PROCESSING, active_tool = None,
                   pending_approval = None, tools = [], conversation = [],
                   created_at = 1, updated_at = 1\<rparr>"
    by (simp add: processing_store_def process_event_def mk_event_def dispatch_def handler_defs
        new_session_def Let_def empty_store_def)
  show ?thesis
    using happy_path_tool_call [OF a, of processing_store 2 3 4
        "Some (JObj [(''file'', JStr ''/x'')])" 5 "Some (JObj [(''ok'', JBool True)])"] a b
    by (simp add: Let_def)
qed

lemma apply_ops_append: "apply_ops (xs @ ys) st = apply_ops ys (apply_ops xs st)"
  by (induction xs arbitrary: st) simp_all

lemma session_invariant:
  assumes new: "\<And>sid now. Q (new_session sid now)"
      and disp: "\<And>now s c ev. Q s \<Longrightarrow> Q (fst (dispatch now (s\<lparr>updated_at := now\<rparr>, c) ev))"
      and msg: "\<And>s m now. Q s \<Longrightarrow> Q (s\<lparr>conversation := conversation s @ [m], updated_at := now\<rparr>)"
      and clr: "\<And>s. Q s \<Longrightarrow> Q (s\<lparr>pending_approval := None, phase := IDLE\<rparr>)"
      and init: "\<forall>k s. sessions st k = Some s \<longrightarrow> Q s"
  shows "\<forall>k s. sessions (apply_ops ops st) k = Some s \<longrightarrow> Q s"
  using init
proof (induction ops arbitrary: st)
  case Nil
  then show ?case by simp
next
  case (Cons x xs)
  have "\<forall>k s. sessions (apply_op x st) k = Some s \<longrightarrow> Q s"
  proof (cases x)
    case (ProcessEvent now ev)
    show ?thesis
    proof (cases "ev_session_id ev")
      case None
      with ProcessEvent Cons.prems show ?thesis by (simp add: process_event_def)
    next
      case (Some sid)
      show ?thesis
      proof (cases "sid = []")
        case True
        with Some ProcessEvent Cons.prems show ?thesis by (simp add: process_event_def)
      next
        case False
        have "Q (case sessions st sid of None \<Rightarrow> new_session sid now | Some s \<Rightarrow> s)"
          using new Cons.prems by (simp split: option.split)
        from disp [OF this] show ?thesis
          using Some False ProcessEvent Cons.prems
          by (simp add: process_event_some Let_def)
      qed
    qed
  next
    case (AddMessage now sid m)
    then show ?thesis using Cons.prems msg
      by (auto simp: add_message_def Let_def split: option.splits json.splits)
  next
    case (ClearApproval sid)
    then show ?thesis using Cons.prems clr
      by (auto simp: clear_approval_def split: option.splits)
  qed
  from Cons.IH [OF this] show ?case by simp
qed

text \<open>
  C1 (as amended). In every state reached from the empty store by hook events, added
  messages and decision clearings, a session whose phase is \<open>waiting_approval\<close> has a
  pending approval. The converse does not hold. An event that is not a
  \<open>PermissionRequest\<close> leaves the pending approval of every session as it is, no event
  and no added message turns a pending approval into none, and \<open>UserPromptSubmit\<close>,
  \<open>PostToolUse\<close> and \<open>SessionEnd\<close> set the phase of their session to \<open>processing\<close>,
  \<open>idle\<close> and \<open>completed\<close>. Only \<open>clear_approval\<close> removes the pending approval, and
  it sets the phase to \<open>idle\<close>.
\<close>

theorem waiting_approval_has_pending:
  "(sessions (apply_ops ops empty_store) sid = Some s \<and> phase s = WAITING_APPROVAL
      \<longrightarrow> pending_approval s \<noteq> None)
   \<and> (sessions st k = Some s0 \<and> ev_type ev \<noteq> Some ''PermissionRequest''
      \<longrightarrow> map_option pending_approval (sessions (process_event now ev st) k)
            = Some (pending_approval s0))
   \<and> (sessions st k = Some s0 \<and> pending_approval s0 \<noteq> None
      \<longrightarrow> (\<exists>s'. sessions (process_event now ev st) k = Some s' \<and> pending_approval s' \<noteq> None))
   \<and> (sessions st k = Some s0
      \<longrightarrow> map_option pending_approval (sessions (fst (add_message now sid' m st)) k)
            = Some (pending_approval s0))
   \<and> (sessions st k = Some s0 \<and> ev_session_id ev = Some k \<and> k \<noteq> []
      \<longrightarrow> (ev_type ev = Some ''UserPromptSubmit''
            \<longrightarrow> map_option phase (sessions (process_event now ev st) k) = Some PROCESSING)
        \<and> (ev_type ev = Some ''PostToolUse''
            \<longrightarrow> map_option phase (sessions (process_event now ev st) k) = Some IDLE)
        \<and> (ev_type ev = Some ''SessionEnd''
            \<longrightarrow> map_option phase (sessions (process_event now ev st) k) = Some COMPLETED))
   \<and> (sessions st k = Some s0
      \<longrightarrow> sessions (clear_approval k st) k
            = Some (s0\<lparr>pending_approval := None, phase := IDLE\<rparr>))"
proof -
  have inv: "\<forall>k s. sessions (apply_ops ops empty_store) k = Some s \<longrightarrow>
          (phase s = WAITING_APPROVAL \<longrightarrow> pending_approval s \<noteq> None)"
    by (rule session_invariant)
       (auto simp: new_session_def dispatch_def handler_defs Let_def empty_store_def
             split: option.splits if_splits)
  have keep: "sessions st k = Some s0 \<and> ev_type ev \<noteq> Some ''PermissionRequest''
      \<longrightarrow> map_option pending_approval (sessions (process_event now ev st) k)
            = Some (pending_approval s0)"
    by (auto simp: process_event_def dispatch_def handler_defs Let_def new_session_def
        split: option.splits)
  have set: "sessions st k = Some s0 \<and> pending_approval s0 \<noteq> None
      \<longrightarrow> (\<exists>s'. sessions (process_event now ev st) k = Some s' \<and> pending_approval s' \<noteq> None)"
    by (auto simp: process_event_def dispatch_def handler_defs Let_def new_session_def
        split: option.splits)
  have msg: "sessions st k = Some s0
      \<longrightarrow> map_option pending_approval (sessions (fst (add_message now sid' m st)) k)
            = Some (pending_approval s0)"
    by (auto simp: add_message_def Let_def split: option.splits json.splits)
  have ph: "sessions st k = Some s0 \<and> ev_session_id ev = Some k \<and> k \<noteq> []
      \<longrightarrow> (ev_type ev = Some ''UserPromptSubmit''
            \<longrightarrow> map_option phase (sessions (process_event now ev st) k) = Some PROCESSING)
        \<and> (ev_type ev = Some ''PostToolUse''
            \<longrightarrow> map_option phase (sessions (process_event now ev st) k) = Some IDLE)
        \<and> (ev_type ev = Some ''SessionEnd''
            \<longrightarrow> map_option phase (sessions (process_event now ev st) k) = Some COMPLETED)"
    by (auto simp: process_event_def dispatch_def handler_defs Let_def split: option.splits)
  have clr: "sessions st k = Some s0
      \<longrightarrow> sessions (clear_approval k st) k
            = Some (s0\<lparr>pending_approval := None, phase := IDLE\<rparr>)"
    by (simp add: clear_approval_def)
  from inv keep set msg ph clr show ?thesis by blast
qed

text \<open>
  The amended C1 at session \<open>A\<close> waiting for an approval: the three events named change
  its phase and keep the approval, an added message keeps it, \<open>clear_approval\<close> removes it.
\<close>

theorem waiting_approval_has_pending_witness:
  "sessions (apply_ops [ProcessEvent 1 (bash_request ''A'')] empty_store) ''A'' =
     Some \<lparr>session_id = ''A'', phase = WAITING_APPROVAL, active_tool = None,
           pending_approval = Some \<lparr>ap_tool_name = ''Bash'',
             ap_parameters = JObj [(''cmd'', JStr ''ls'')], ap_timestamp = 1\<rparr>,
           tools = [], conversation = [], created_at = 1, updated_at = 1\<rparr>
   \<and> map_option phase (sessions (process_event 2 (mk_event ''UserPromptSubmit'' ''A'')
        awaiting_store) ''A'') = Some PROCESSING
   \<and> map_option pending_approval (sessions (process_event 2
        (mk_event ''UserPromptSubmit'' ''A'') awaiting_store) ''A'')
       = Some (Some \<lparr>ap_tool_name = ''Bash'', ap_parameters = JObj [(''cmd'', JStr ''ls'')],
                     ap_timestamp = 1\<rparr>)
   \<and> map_option phase (sessions (process_event 2 (mk_event ''PostToolUse'' ''A'')
        awaiting_store) ''A'') = Some IDLE
   \<and> map_option pending_approval (sessions (process_event 2
        (mk_event ''PostToolUse'' ''A'') awaiting_store) ''A'')
       = Some (Some \<lparr>ap_tool_name = ''Bash'', ap_parameters = JObj [(''cmd'', JStr ''ls'')],
                     ap_timestamp = 1\<rparr>)
   \<and> map_option phase (sessions (process_event 2 (mk_event ''SessionEnd'' ''A'')
        awaiting_store) ''A'') = Some COMPLETED
   \<and> map_option pending_approval (sessions (process_event 2
        (mk_event ''SessionEnd'' ''A'') awaiting_store) ''A'')
       = Some (Some \<lparr>ap_tool_name = ''Bash'', ap_parameters = JObj [(''cmd'', JStr ''ls'')],
                     ap_timestamp = 1\<rparr>)
   \<and> map_option pending_approval (sessions (fst (add_message 2 ''A'' user_hello
        awaiting_store)) ''A'')
       = Some (Some \<lparr>ap_tool_name = ''Bash'', ap_parameters = JObj [(''cmd'', JStr ''ls'')],
                     ap_timestamp = 1\<rparr>)
   \<and> sessions (clear_approval ''A'' awaiting_store) ''A'' =
       Some \<lparr>session_id = ''A'', phase = IDLE, active_tool = None, pending_approval = None,
             tools = [], conversation = [], created_at = 1, updated_at = 1\<rparr>"
proof -
  let ?ap = "\<lparr>ap_tool_name = ''Bash'', ap_parameters = JObj [(''cmd'', JStr ''ls'')],
               ap_timestamp = 1\<rparr>"
  let ?s = "\<lparr>session_id = ''A'', phase = WAITING_APPROVAL, active_tool = None,
              pending_approval = Some ?ap,
              tools = [], conversation = [], created_at = 1, updated_at = 1\<rparr>"
  have a: "sessions awaiting_store ''A'' = Some ?s"
    by (simp add: awaiting_store_def bash_request_def process_event_def mk_tool_event_def
        dispatch_def handler_defs new_session_def event_tool_name_def empty_store_def Let_def)
  have a': "sessions (apply_ops [ProcessEvent 1 (bash_request ''A'')] empty_store) ''A'' = Some ?s"
    using a by (simp add: awaiting_store_def)
  have b: "phase ?s = WAITING_APPROVAL" "pending_approval ?s = Some ?ap" "''A'' \<noteq> []"
    by simp_all
  have e: "ev_session_id (mk_event ''UserPromptSubmit'' ''A'') = Some ''A''"
      "ev_type (mk_event ''UserPromptSubmit'' ''A'') = Some ''UserPromptSubmit''"
      "ev_session_id (mk_event ''PostToolUse'' ''A'') = Some ''A''"
      "ev_type (mk_event ''PostToolUse'' ''A'') = Some ''PostToolUse''"
      "ev_session_id (mk_event ''SessionEnd'' ''A'') = Some ''A''"
      "ev_type (mk_event ''SessionEnd'' ''A'') = Some ''SessionEnd''"
    by (simp_all add: mk_event_def)
  note t = waiting_approval_has_pending [where ops = "[ProcessEvent 1 (bash_request ''A'')]"
      and sid = "''A''" and s = ?s and st = awaiting_store and k = "''A''" and ?s0.0 = ?s
      and now = 2 and sid' = "''A''" and m = user_hello]
  from t [where ev = "mk_event ''UserPromptSubmit'' ''A''"]
       t [where ev = "mk_event ''PostToolUse'' ''A''"]
       t [where ev = "mk_event ''SessionEnd'' ''A''"] a a' b e
  show ?thesis by simp
qed

text \<open>
  C1 as stated fails: after a permission request and a user prompt, session \<open>A\<close> is
  \<open>processing\<close> and its pending approval is still set.
\<close>

theorem phase_approval_coherence_counterexample:
  "map_option phase (sessions (apply_ops approval_then_prompt empty_store) ''A'') = Some PROCESSING
   \<and> map_option pending_approval (sessions (apply_ops approval_then_prompt empty_store) ''A'') =
       Some (Some \<lparr>ap_tool_name = ''Bash'', ap_parameters = JObj [(''cmd'', JStr ''ls'')],
                   ap_timestamp = 1\<rparr>)"
  by (simp add: approval_then_prompt_def process_event_def mk_tool_event_def mk_event_def dispatch_def
      handler_defs new_session_def event_tool_name_def empty_store_def Let_def)

text \<open>
  C10. A \<open>PostToolUse\<close> whose tool name is that of the active tool appends the active
  tool with status \<open>success\<close>, its end time and the event's result, whatever the result
  is; and in every reachable state every tool in \<open>tools\<close> has status \<open>success\<close>.
\<close>

theorem completed_tool_status_success:
  "(sid \<noteq> [] \<and> ev_session_id ev = Some sid \<and> ev_type ev = Some ''PostToolUse''
      \<and> sessions st sid = Some s \<and> active_tool s = Some tool \<and> name tool = event_tool_name ev
    \<longrightarrow> map_option tools (sessions (process_event now ev st) sid) =
          Some (tools s @ [tool\<lparr>end_time := Some now, status := ''success'',
                                result := ev_result ev\<rparr>]))
   \<and> (sessions (apply_ops ops empty_store) k = Some s' \<and> t \<in> set (tools s')
    \<longrightarrow> status t = ''success'')"
proof -
  have "\<forall>k s. sessions (apply_ops ops empty_store) k = Some s \<longrightarrow>
          (\<forall>t \<in> set (tools s). status t = ''success'')"
    by (rule session_invariant)
       (auto simp: new_session_def dispatch_def handler_defs Let_def empty_store_def
             split: option.splits if_splits)
  then show ?thesis
    by (auto simp: process_event_def dispatch_def handler_defs Let_def)
qed

text \<open>
  C6 (as amended). A \<open>PostToolUse\<close> whose tool name is not that of the active tool (or
  with no active tool) leaves \<open>active_tool\<close>, \<open>tools\<close>, \<open>pending_approval\<close> and
  \<open>conversation\<close> of the session as they were and touches no other session; the phase
  becomes \<open>idle\<close> and \<open>updated_at\<close> the clock reading.
\<close>

theorem unmatched_post_tool_use:
  assumes "sid \<noteq> []" and "ev_session_id ev = Some sid" and "ev_type ev = Some ''PostToolUse''"
      and "sessions st sid = Some s"
      and "\<forall>tool. active_tool s = Some tool \<longrightarrow> name tool \<noteq> event_tool_name ev"
  shows "sessions (process_event now ev st) =
           (sessions st)(sid \<mapsto> s\<lparr>phase := IDLE, updated_at := now\<rparr>)"
  using assms
  by (auto simp: process_event_def dispatch_def handler_defs Let_def split: option.splits)

text \<open>
  C6 as stated fails: session \<open>A\<close> is \<open>processing\<close> with no active tool, and the
  unmatched \<open>PostToolUse\<close> moves it to \<open>idle\<close>.
\<close>

theorem unmatched_post_tool_use_counterexample:
  "map_option phase (sessions processing_store ''A'') = Some PROCESSING
   \<and> map_option active_tool (sessions processing_store ''A'') = Some None
   \<and> map_option phase (sessions (process_event 2
        (mk_tool_event ''PostToolUse'' ''A'' ''Read'' None (Some (JObj []))) processing_store) ''A'')
       = Some IDLE"
  by (simp add: processing_store_def process_event_def mk_tool_event_def mk_event_def dispatch_def
      handler_defs new_session_def event_tool_name_def empty_store_def Let_def)

text \<open>
  C10 at session \<open>A\<close> running \<open>Read\<close>, ended by an event whose result reports an error.
\<close>

theorem completed_tool_status_success_witness:
  "map_option tools (sessions (process_event 2 failed_read running_store) ''A'') =
     Some [\<lparr>name = ''Read'', status = ''success'', start_time = 1, end_time = Some 2,
            result = Some (JObj [(''error'', JStr ''no such file'')]), parameters = None\<rparr>]
   \<and> status \<lparr>name = ''Read'', status = ''success'', start_time = 1, end_time = Some 2,
            result = Some (JObj [(''error'', JStr ''no such file'')]), parameters = None\<rparr>
       = ''success''"
proof -
  let ?tool = "\<lparr>name = ''Read'', status = ''running'', start_time = 1, end_time = None,
                 result = None, parameters = None\<rparr>"
  let ?done = "\<lparr>name = ''Read'', status = ''success'', start_time = 1, end_time = Some 2,
                 result = Some (JObj [(''error'', JStr ''no such file'')]), parameters = None\<rparr>"
  let ?s = "\<lparr>session_id = ''A'', phase = RUNNING_TOOL, active_tool = Some ?tool,
              pending_approval = None, tools = [], conversation = [],
              created_at = 1, updated_at = 1\<rparr>"
  let ?s' = "\<lparr>session_id = ''A'', phase = IDLE, active_tool = None,
              pending_approval = None, tools = [?done], conversation = [],
              created_at = 1, updated_at = 2\<rparr>"
  have a: "sessions running_store ''A'' = Some ?s"
    by (simp add: running_store_def process_event_def mk_tool_event_def dispatch_def
        handler_defs new_session_def event_tool_name_def empty_store_def Let_def)
  have b: "sessions (apply_ops [ProcessEvent 1 (mk_tool_event ''PreToolUse'' ''A'' ''Read'' None None),
             ProcessEvent 2 failed_read] empty_store) ''A'' = Some ?s'"
    by (simp add: failed_read_def process_event_def mk_tool_event_def dispatch_def
        handler_defs new_session_def event_tool_name_def empty_store_def Let_def)
  have c: "ev_session_id failed_read = Some ''A''" "ev_type failed_read = Some ''PostToolUse''"
    "event_tool_name failed_read = ''Read''" "ev_result failed_read = Some (JObj [(''error'', JStr ''no such file'')])"
    by (simp_all add: failed_read_def mk_tool_event_def event_tool_name_def)
  from completed_tool_status_success [of "''A''" failed_read running_store ?s ?tool 2
      "[ProcessEvent 1 (mk_tool_event ''PreToolUse'' ''A'' ''Read'' None None),
        ProcessEvent 2 failed_read]" "''A''" ?s' ?done] a b c
  show ?thesis by simp
qed

text \<open>
  The amended C6 at session \<open>A\<close> of \<open>running_store\<close>, whose active tool is \<open>Read\<close>, and a
  \<open>PostToolUse\<close> for \<open>Write\<close>.
\<close>

theorem unmatched_post_tool_use_witness:
  "sessions (process_event 2 (mk_tool_event ''PostToolUse'' ''A'' ''Write'' None None)
      running_store) =
     (sessions running_store)(''A'' \<mapsto>
        \<lparr>session_id = ''A'', phase = IDLE,
         active_tool = Some \<lparr>name = ''Read'', status = ''running'', start_time = 1,
                             end_time = None, result = None, parameters = None\<rparr>,
         pending_approval = None, tools = [], conversation = [],
         created_at = 1, updated_at = 2\<rparr>)"
proof -
  let ?s = "\<lparr>session_id = ''A'', phase = RUNNING_TOOL,
              active_tool = Some \<lparr>name = ''Read'', status = ''running'', start_time = 1,
                             end_time = None, result = None, parameters = None\<rparr>,
              pending_approval = None, tools = [], conversation = [],
              created_at = 1, updated_at = 1\<rparr>"
  let ?ev = "mk_tool_event ''PostToolUse'' ''A'' ''Write'' None None"
  have a: "sessions running_store ''A'' = Some ?s"
    by (simp add: running_store_def process_event_def mk_tool_event_def dispatch_def
        handler_defs new_session_def event_tool_name_def empty_store_def Let_def)
  have b: "''A'' \<noteq> []" "ev_session_id ?ev = Some ''A''" "ev_type ?ev = Some ''PostToolUse''"
    by (simp_all add: mk_tool_event_def)
  have c: "\<forall>tool. active_tool ?s = Some tool \<longrightarrow> name tool \<noteq> event_tool_name ?ev"
    by (simp add: mk_tool_event_def event_tool_name_def)
  from unmatched_post_tool_use [OF b a c, of 2] show ?thesis by simp
qed

section \<open>The hook endpoint: frames written\<close>

lemmas server_defs = handle_client_def server_process_event_def send_approval_response_def
  writer_do_def

lemma writes_step:
  "Write f \<in> set (writers (server_step x srv) w) \<Longrightarrow>
   Write f \<in> set (writers srv w) \<or> f = waiting_frame \<or> (\<exists>d. f = decision_frame d)"
  by (cases x)
     (auto simp: server_defs Let_def split: payload.splits option.splits if_splits prod.splits)

lemma writes_run:
  "Write f \<in> set (writers (server_run xs srv) w) \<Longrightarrow>
   Write f \<in> set (writers srv w) \<or> f = waiting_frame \<or> (\<exists>d. f = decision_frame d)"
proof (induction xs arbitrary: srv)
  case Nil
  then show ?case by simp
next
  case (Cons x xs)
  from Cons.IH [of "server_step x srv"] Cons.prems writes_step [of f x srv w]
  show ?case by auto
qed

lemma permission_request_step:
  assumes "ev_type ev = Some ''PermissionRequest''" "ev_session_id ev = Some sid" "sid \<noteq> []"
  shows "writers (handle_client now (Hook ev) w srv) =
           (writers srv)(w := writers srv w @ [Write waiting_frame, Drain, Close])"
    and "pending_approvals (handle_client now (Hook ev) w srv) = (pending_approvals srv)(sid \<mapsto> w)"
    and "map_option phase (sessions (session_store (handle_client now (Hook ev) w srv)) sid)
           = Some WAITING_APPROVAL"
    and "map_option pending_approval (sessions (session_store (handle_client now (Hook ev) w srv)) sid)
           = Some (Some \<lparr>ap_tool_name = event_tool_name ev,
                 ap_parameters = (case ev_parameters ev of None \<Rightarrow> JObj [] | Some p \<Rightarrow> p),
                 ap_timestamp = now\<rparr>)"
  using assms
  by (auto simp: server_defs process_event_some dispatch_def handler_defs Let_def fun_eq_iff)

text \<open>
  C2 (as amended). The server has no approval deadline. Whatever connections and
  decisions it receives, every frame it writes is the waiting frame or the frame of a
  frontend decision, so the denial for a timeout is never written. A \<open>PermissionRequest\<close>
  with a session identifier is answered on its connection by the waiting frame, after
  which the connection is closed; the session is left in \<open>waiting_approval\<close> with its
  pending approval set.
\<close>

theorem no_approval_deadline:
  "Write timeout_frame \<notin> set (writers (server_run xs new_server) w)
   \<and> (Write f \<in> set (writers (server_run xs new_server) w)
        \<longrightarrow> f = waiting_frame \<or> (\<exists>d. f = decision_frame d))
   \<and> (ev_type ev = Some ''PermissionRequest'' \<and> ev_session_id ev = Some sid \<and> sid \<noteq> []
        \<longrightarrow> writers (handle_client now (Hook ev) w srv) w =
              writers srv w @ [Write waiting_frame, Drain, Close]
          \<and> map_option phase (sessions (session_store (handle_client now (Hook ev) w srv)) sid)
              = Some WAITING_APPROVAL
          \<and> map_option pending_approval
               (sessions (session_store (handle_client now (Hook ev) w srv)) sid)
              = Some (Some \<lparr>ap_tool_name = event_tool_name ev,
                   ap_parameters = (case ev_parameters ev of None \<Rightarrow> JObj [] | Some p \<Rightarrow> p),
                   ap_timestamp = now\<rparr>))"
proof -
  have "Write timeout_frame \<notin> set (writers (server_run xs new_server) w)"
    using writes_run [of timeout_frame xs new_server w]
    by (auto simp: new_server_def timeout_frame_def waiting_frame_def decision_frame_def)
  moreover have "Write f \<in> set (writers (server_run xs new_server) w)
        \<longrightarrow> f = waiting_frame \<or> (\<exists>d. f = decision_frame d)"
    using writes_run [of f xs new_server w] by (auto simp: new_server_def)
  ultimately show ?thesis
    using permission_request_step [of ev sid now w srv] by simp
qed

text \<open>
  The amended C2 at one permission request for session \<open>B\<close> on connection 1.
\<close>

theorem no_approval_deadline_witness:
  "Write waiting_frame \<in> set (writers (server_run [Connection 0 (Hook (bash_request ''B'')) 1] new_server) 1)
   \<and> Write timeout_frame \<notin> set (writers (server_run [Connection 0 (Hook (bash_request ''B'')) 1] new_server) 1)
   \<and> writers (handle_client 0 (Hook (bash_request ''B'')) 1 new_server) 1 =
        [Write waiting_frame, Drain, Close]
   \<and> map_option phase (sessions (session_store (handle_client 0 (Hook (bash_request ''B'')) 1 new_server)) ''B'')
        = Some WAITING_APPROVAL"
proof -
  have a: "Write waiting_frame \<in> set (writers (server_run [Connection 0 (Hook (bash_request ''B'')) 1] new_server) 1)"
    by (simp add: bash_request_def new_server_def server_defs mk_tool_event_def)
  have b: "ev_type (bash_request ''B'') = Some ''PermissionRequest''"
     "ev_session_id (bash_request ''B'') = Some ''B''" "''B'' \<noteq> []"
    by (simp_all add: bash_request_def mk_tool_event_def)
  from no_approval_deadline [of "[Connection 0 (Hook (bash_request ''B'')) 1]" 1 waiting_frame
      "bash_request ''B''" "''B''" 0 new_server] a b
  show ?thesis by (simp add: new_server_def timeout_frame_def waiting_frame_def)
qed

text \<open>
  C2 as stated fails: after a permission request for session \<open>B\<close> and no further input,
  connection 1 has received the waiting frame only and is closed, and the session is still
  in \<open>waiting_approval\<close> with its pending approval set. No later input being needed for a
  deadline, this is the state at every later time.
\<close>

theorem approval_timeout_counterexample:
  "writers (server_run [Connection 0 (Hook (bash_request ''B'')) 1] new_server) 1
     = [Write waiting_frame, Drain, Close]
   \<and> Write timeout_frame \<notin> set (writers (server_run [Connection 0 (Hook (bash_request ''B'')) 1] new_server) 1)
   \<and> map_option phase (sessions (session_store
        (server_run [Connection 0 (Hook (bash_request ''B'')) 1] new_server)) ''B'')
       = Some WAITING_APPROVAL
   \<and> map_option pending_approval (sessions (session_store
        (server_run [Connection 0 (Hook (bash_request ''B'')) 1] new_server)) ''B'')
       = Some (Some \<lparr>ap_tool_name = ''Bash'', ap_parameters = JObj [(''cmd'', JStr ''ls'')],
                     ap_timestamp = 0\<rparr>)"
  by (simp add: bash_request_def new_server_def server_defs process_event_def mk_tool_event_def
      dispatch_def handler_defs new_session_def event_tool_name_def empty_store_def Let_def
      timeout_frame_def waiting_frame_def)

text \<open>
  C3 (as amended). When a \<open>PermissionRequest\<close> arrives on a new connection for a session
  that has a registered writer, nothing is written to the earlier writer; the new
  connection gets the waiting frame and is closed, and \<open>pending_approvals\<close> then holds the
  new writer for the session. The denial of a superseded request is never written.
\<close>

theorem superseded_request_replaced:
  assumes "ev_type ev = Some ''PermissionRequest''" and "ev_session_id ev = Some sid"
      and "sid \<noteq> []" and "pending_approvals srv sid = Some w1" and "w2 \<noteq> w1"
  shows "writers (handle_client now (Hook ev) w2 srv) w1 = writers srv w1
       \<and> writers (handle_client now (Hook ev) w2 srv) w2 =
           writers srv w2 @ [Write waiting_frame, Drain, Close]
       \<and> pending_approvals (handle_client now (Hook ev) w2 srv) sid = Some w2
       \<and> Write superseded_frame \<notin> set (writers (server_run xs new_server) w)"
proof -
  have "Write superseded_frame \<notin> set (writers (server_run xs new_server) w)"
    using writes_run [of superseded_frame xs new_server w]
    by (auto simp: new_server_def superseded_frame_def waiting_frame_def decision_frame_def)
  then show ?thesis
    using assms permission_request_step(1,2) [of ev sid now w2 srv] by simp
qed

text \<open>
  The amended C3 at two permission requests for session \<open>C\<close> on connections 1 and 2.
\<close>

theorem superseded_request_replaced_witness:
  "writers (handle_client 2 (Hook (bash_request ''C'')) 2
             (handle_client 1 (Hook (bash_request ''C'')) 1 new_server)) 1
     = [Write waiting_frame, Drain, Close]
   \<and> writers (handle_client 2 (Hook (bash_request ''C'')) 2
             (handle_client 1 (Hook (bash_request ''C'')) 1 new_server)) 2
     = [Write waiting_frame, Drain, Close]
   \<and> pending_approvals (handle_client 2 (Hook (bash_request ''C'')) 2
             (handle_client 1 (Hook (bash_request ''C'')) 1 new_server)) ''C'' = Some 2"
proof -
  let ?srv = "handle_client 1 (Hook (bash_request ''C'')) 1 new_server"
  have b: "ev_type (bash_request ''C'') = Some ''PermissionRequest''"
     "ev_session_id (bash_request ''C'') = Some ''C''" "''C'' \<noteq> []"
    by (simp_all add: bash_request_def mk_tool_event_def)
  have c: "pending_approvals ?srv ''C'' = Some 1" "(2::nat) \<noteq> 1"
    by (simp_all add: bash_request_def new_server_def server_defs mk_tool_event_def)
  have d: "writers ?srv 1 = [Write waiting_frame, Drain, Close]" "writers ?srv 2 = []"
    by (simp_all add: bash_request_def new_server_def server_defs mk_tool_event_def)
  from superseded_request_replaced [OF b c, of 2 "[]" 0] d show ?thesis by simp
qed

text \<open>
  C3 as stated fails: after two permission requests for session \<open>C\<close>, the first
  connection has received the waiting frame only, and no denial of a superseded request.
\<close>

theorem approval_supersession_counterexample:
  "writers (server_run [Connection 1 (Hook (bash_request ''C'')) 1,
                         Connection 2 (Hook (bash_request ''C'')) 2] new_server) 1
     = [Write waiting_frame, Drain, Close]
   \<and> Write superseded_frame \<notin> set (writers (server_run
          [Connection 1 (Hook (bash_request ''C'')) 1,
           Connection 2 (Hook (bash_request ''C'')) 2] new_server) 1)"
  by (simp add: bash_request_def new_server_def server_defs mk_tool_event_def
      superseded_frame_def waiting_frame_def)

section \<open>Creation and retention of sessions\<close>

lemma add_message_unknown: "sessions st sid = None \<Longrightarrow> add_message now sid message st = (st, None)"
  by (simp add: add_message_def)

lemma add_messages_unknown: "sessions st sid = None \<Longrightarrow> add_messages now sid ms st = (st, None)"
  by (induction ms) (simp_all add: add_message_unknown)

lemma process_event_keeps: "sessions st k \<noteq> None \<Longrightarrow> sessions (process_event now ev st) k \<noteq> None"
  by (auto simp: process_event_def Let_def split: option.splits)

lemma add_message_keeps: "sessions st k \<noteq> None \<Longrightarrow> sessions (fst (add_message now sid m st)) k \<noteq> None"
  by (auto simp: add_message_def Let_def split: option.splits json.splits)

lemma add_messages_keeps: "sessions st k \<noteq> None \<Longrightarrow> sessions (fst (add_messages now sid ms st)) k \<noteq> None"
proof (induction ms arbitrary: st)
  case Nil
  then show ?case by simp
next
  case (Cons m ms)
  from add_message_keeps [OF Cons.prems, of now sid m]
  have "sessions (fst (add_message now sid m st)) k \<noteq> None" .
  with Cons.IH [of "fst (add_message now sid m st)"] show ?case
    by (cases "add_message now sid m st") (auto split: option.splits)
qed

lemma clear_approval_keeps: "sessions st k \<noteq> None \<Longrightarrow> sessions (clear_approval sid st) k \<noteq> None"
  by (auto simp: clear_approval_def split: option.splits)

lemma clear_conversation_keeps: "sessions st k \<noteq> None \<Longrightarrow> sessions (clear_conversation sid st) k \<noteq> None"
  by (auto simp: clear_conversation_def get_session_def split: option.splits)

lemma apply_ops_keeps: "sessions st k \<noteq> None \<Longrightarrow> sessions (apply_ops ops st) k \<noteq> None"
proof (induction ops arbitrary: st)
  case Nil
  then show ?case by simp
next
  case (Cons x xs)
  have "sessions (apply_op x st) k \<noteq> None"
    using Cons.prems
    by (cases x) (simp_all add: process_event_keeps add_message_keeps clear_approval_keeps)
  from Cons.IH [OF this] show ?case by simp
qed

lemma on_modified_keeps:
  "sessions (handler_store h) k \<noteq> None \<Longrightarrow>
   sessions (handler_store (fst (on_modified loads now sid file h))) k \<noteq> None"
proof -
  assume a: "sessions (handler_store h) k \<noteq> None"
  show ?thesis
  proof (cases "detect_clear_command (fst (parse_incremental loads file
                  (case parsers h sid of None \<Rightarrow> 0 | Some p \<Rightarrow> p)))")
    case (Inl e)
    with a show ?thesis by (simp add: on_modified_def Let_def)
  next
    case (Inr clear)
    from a have "sessions (clear_conversation sid (handler_store h)) k \<noteq> None"
      by (rule clear_conversation_keeps)
    from add_messages_keeps [OF this] add_messages_keeps [OF a] Inr
    show ?thesis by (simp add: on_modified_def Let_def)
  qed
qed

lemma on_created_keeps:
  "sessions (handler_store h) k \<noteq> None \<Longrightarrow>
   sessions (handler_store (fst (on_created loads now sid file h))) k \<noteq> None"
  using add_messages_keeps [of "handler_store h" k]
  by (simp add: on_created_def Let_def)

text \<open>
  C5 (as amended). The first hook event that names a session (with a non-empty
  identifier) creates it. A message from the log for a session that the store does not
  know is discarded: \<open>add_message\<close> returns the store as it was, and so does the initial
  parse of a new log. No operation of the store or of the file handler removes a
  session.
\<close>

theorem session_creation_and_retention:
  "(ev_session_id ev = Some sid \<and> sid \<noteq> [] \<and> sessions st sid = None
      \<longrightarrow> map_option session_id (sessions (process_event now ev st) sid) = Some sid)
   \<and> (sessions st sid = None \<longrightarrow> add_message now sid message st = (st, None))
   \<and> (sessions (handler_store h) sid = None
      \<longrightarrow> handler_store (fst (on_created loads now sid file h)) = handler_store h)
   \<and> (sessions st k \<noteq> None \<longrightarrow> sessions (apply_ops ops st) k \<noteq> None)
   \<and> (sessions (handler_store h) k \<noteq> None
      \<longrightarrow> sessions (handler_store (fst (on_modified loads now sid file h))) k \<noteq> None
        \<and> sessions (handler_store (fst (on_created loads now sid file h))) k \<noteq> None)"
proof -
  have "ev_session_id ev = Some sid \<and> sid \<noteq> [] \<and> sessions st sid = None
      \<longrightarrow> map_option session_id (sessions (process_event now ev st) sid) = Some sid"
    by (auto simp: process_event_some dispatch_def handler_defs Let_def new_session_def)
  moreover have "sessions (handler_store h) sid = None
      \<longrightarrow> handler_store (fst (on_created loads now sid file h)) = handler_store h"
    by (simp add: on_created_def Let_def add_messages_unknown)
  ultimately show ?thesis
    using add_message_unknown [of st sid now message] apply_ops_keeps [of st k ops]
      on_modified_keeps [of h k loads now sid "file"] on_created_keeps [of h k loads now sid "file"]
    by blast
qed

text \<open>
  C5 as stated fails: a message from the log for the unknown session \<open>A\<close> creates no
  session.
\<close>

theorem log_message_unknown_session_counterexample:
  "sessions (fst (add_message 1 ''A'' user_hello empty_store)) ''A'' = None"
  by (simp add: add_message_def empty_store_def)

section \<open>Events of unknown type\<close>


lemma unknown_dispatch: "ev_type e \<notin> Some ` set handled_types \<Longrightarrow> dispatch now sc e = sc"
  by (auto simp: dispatch_def handled_types_def Let_def)

lemma dispatch_untimed:
  assumes "untimed s1 = untimed s2"
  shows "snd (dispatch now (s1\<lparr>updated_at := now\<rparr>, c) ev) = snd (dispatch now (s2\<lparr>updated_at := now\<rparr>, c) ev)
       \<and> untimed (fst (dispatch now (s1\<lparr>updated_at := now\<rparr>, c) ev))
           = untimed (fst (dispatch now (s2\<lparr>updated_at := now\<rparr>, c) ev))"
  using assms
  by (cases s1; cases s2)
     (auto simp: untimed_def dispatch_def handler_defs Let_def cache_key_def split: option.splits)

lemma similar_refl: "similar k0 X X"
  by (simp add: similar_def split: option.splits)

lemma similar_init:
  assumes "ev_type e \<notin> Some ` set handled_types" "ev_session_id e = Some sid" "sid \<noteq> []"
  shows "similar sid st (process_event t e st)"
  using assms
  by (auto simp: similar_def process_event_some unknown_dispatch Let_def untimed_def new_session_def
      split: option.splits)

lemma similar_step:
  assumes "similar k0 X Y"
  shows "similar k0 (process_event now ev X) (process_event now ev Y)"
proof (cases "ev_session_id ev")
  case None
  with assms show ?thesis by (simp add: process_event_def)
next
  case (Some sid)
  show ?thesis
  proof (cases "sid = []")
    case True
    with Some assms show ?thesis by (simp add: process_event_def)
  next
    case False
    note pe = process_event_some [OF False Some]
    from assms have cache: "pending_tool_cache Y = pending_tool_cache X"
      by (simp add: similar_def)
    show ?thesis
    proof (cases "sid = k0")
      case neq: False
      from assms neq have same: "sessions Y sid = sessions X sid" by (simp add: similar_def)
      from assms show ?thesis
        unfolding pe Let_def similar_def using neq cache same
        by (auto split: option.splits)
    next
      case eq: True
      let ?sx = "case sessions X sid of None \<Rightarrow> new_session sid now | Some s \<Rightarrow> s"
      let ?sy = "case sessions Y sid of None \<Rightarrow> new_session sid now | Some s \<Rightarrow> s"
      have u: "untimed ?sy = untimed ?sx"
        using assms eq
        by (auto simp: similar_def untimed_def new_session_def split: option.splits)
      from dispatch_untimed [OF u, of now "pending_tool_cache X" ev] assms
      show ?thesis
        unfolding pe Let_def similar_def using eq cache
        by (auto split: option.splits)
    qed
  qed
qed

lemma similar_run: "similar k0 X Y \<Longrightarrow> similar k0 (process_events es X) (process_events es Y)"
  by (induction es arbitrary: X Y) (simp_all add: similar_step)

lemma process_events_append:
  "process_events (xs @ ys) st = process_events ys (process_events xs st)"
  by (induction xs arbitrary: st) simp_all

lemma insertion_similar:
  assumes "ev_type e \<notin> Some ` set handled_types"
  shows "\<exists>k0. similar k0 (process_events (S1 @ S2) st) (process_events (S1 @ (t, e) # S2) st)
           \<and> (ev_session_id e = Some k0 \<or> process_events (S1 @ (t, e) # S2) st = process_events (S1 @ S2) st)"
proof (cases "ev_session_id e")
  case None
  then have "process_event t e (process_events S1 st) = process_events S1 st"
    by (simp add: process_event_def)
  then show ?thesis using similar_refl by (auto simp: process_events_append)
next
  case (Some sid)
  show ?thesis
  proof (cases "sid = []")
    case True
    with Some have "process_event t e (process_events S1 st) = process_events S1 st"
      by (simp add: process_event_def)
    then show ?thesis using similar_refl by (auto simp: process_events_append)
  next
    case False
    from similar_init [OF assms Some False]
    have "similar sid (process_events S1 st) (process_event t e (process_events S1 st))" .
    from similar_run [OF this, of S2] Some show ?thesis
      by (auto simp: process_events_append)
  qed
qed

lemma process_events_keeps:
  "sessions st k \<noteq> None \<Longrightarrow> sessions (process_events es st) k \<noteq> None"
proof (induction es arbitrary: st)
  case Nil
  then show ?case by simp
next
  case (Cons x xs)
  from Cons.IH [OF process_event_keeps [OF Cons.prems]] show ?case by simp
qed

lemma process_event_creates:
  "ev_session_id e = Some k \<Longrightarrow> k \<noteq> [] \<Longrightarrow> sessions (process_event t e st) k \<noteq> None"
  by (simp add: process_event_some Let_def)

text \<open>
  C7 (as amended). Inserting an event of an unhandled type anywhere in a sequence of
  events leaves the tool cache and every session other than the one it names as they are.
  The session it names (by a non-empty identifier) is the same but for \<open>created_at\<close> and
  \<open>updated_at\<close> when the sequence alone creates it, and otherwise is created as a new
  idle session. An event of an unhandled type with no or an empty session identifier
  changes nothing.
\<close>

theorem unknown_event_insertion:
  assumes "ev_type e \<notin> Some ` set handled_types"
  shows "pending_tool_cache (process_events (S1 @ (t, e) # S2) st)
           = pending_tool_cache (process_events (S1 @ S2) st)
       \<and> (ev_session_id e \<noteq> Some k \<longrightarrow>
            sessions (process_events (S1 @ (t, e) # S2) st) k
              = sessions (process_events (S1 @ S2) st) k)
       \<and> (sessions (process_events (S1 @ S2) st) k \<noteq> None \<longrightarrow>
            map_option untimed (sessions (process_events (S1 @ (t, e) # S2) st) k)
              = map_option untimed (sessions (process_events (S1 @ S2) st) k))
       \<and> (sessions (process_events (S1 @ S2) st) k = None \<and> ev_session_id e = Some k
            \<and> k \<noteq> [] \<longrightarrow>
            map_option untimed (sessions (process_events (S1 @ (t, e) # S2) st) k)
              = Some (untimed (new_session k 0)))
       \<and> (ev_session_id e = None \<or> ev_session_id e = Some [] \<longrightarrow>
            process_events (S1 @ (t, e) # S2) st = process_events (S1 @ S2) st)"
proof -
  from insertion_similar [OF assms, of S1 S2 st t]
  obtain k0 where sim: "similar k0 (process_events (S1 @ S2) st) (process_events (S1 @ (t, e) # S2) st)"
    and k0: "ev_session_id e = Some k0 \<or>
             process_events (S1 @ (t, e) # S2) st = process_events (S1 @ S2) st"
    by blast
  have created: "ev_session_id e = Some k \<and> k \<noteq> [] \<longrightarrow>
                   sessions (process_events (S1 @ (t, e) # S2) st) k \<noteq> None"
    using process_events_keeps [OF process_event_creates, of e k S2 t "process_events S1 st"]
    by (simp add: process_events_append)
  have unnamed: "ev_session_id e = None \<or> ev_session_id e = Some [] \<longrightarrow>
            process_events (S1 @ (t, e) # S2) st = process_events (S1 @ S2) st"
    by (auto simp: process_events_append process_event_def)
  show ?thesis
  proof (cases "ev_session_id e = None \<or> ev_session_id e = Some []")
    case True
    with unnamed
    have same: "process_events (S1 @ (t, e) # S2) st = process_events (S1 @ S2) st" by blast
    from True show ?thesis unfolding same by auto
  next
    case named: False
    show ?thesis
    proof (cases "process_events (S1 @ (t, e) # S2) st = process_events (S1 @ S2) st")
      case True
      with created named show ?thesis by auto
    next
      case False
      with k0 have "ev_session_id e = Some k0" by simp
      with sim created named show ?thesis
        unfolding similar_def by (cases "k = k0") (auto split: option.splits)
    qed
  qed
qed

lemmas eval_defs = process_event_def mk_tool_event_def mk_event_def dispatch_def
  handler_defs new_session_def event_tool_name_def empty_store_def Let_def

text \<open>
  The amended C5 at a store that knows session \<open>B\<close> and not session \<open>A\<close>.
\<close>

theorem session_creation_and_retention_witness:
  "sessions session_b_store ''A'' = None \<and> sessions session_b_store ''B'' \<noteq> None
   \<and> map_option session_id
        (sessions (process_event 2 (mk_event ''SessionStart'' ''A'') session_b_store) ''A'')
       = Some ''A''
   \<and> add_message 2 ''A'' user_hello session_b_store = (session_b_store, None)
   \<and> handler_store (fst (on_created (\<lambda>l. JSONDecodeError) 2 ''A'' None (new_handler session_b_store)))
       = session_b_store
   \<and> sessions (apply_ops [ClearApproval ''B'', ProcessEvent 3 (mk_event ''SessionEnd'' ''B'')]
        session_b_store) ''B'' \<noteq> None
   \<and> sessions (handler_store (fst (on_modified (\<lambda>l. JSONDecodeError) 2 ''A'' None
        (new_handler session_b_store)))) ''B'' \<noteq> None"
proof -
  have a: "sessions session_b_store ''A'' = None" "sessions session_b_store ''B'' \<noteq> None"
    by (simp_all add: session_b_store_def eval_defs)
  have b: "ev_session_id (mk_event ''SessionStart'' ''A'') = Some ''A''" "''A'' \<noteq> []"
    by (simp_all add: mk_event_def)
  have c: "handler_store (new_handler session_b_store) = session_b_store"
    by (simp add: new_handler_def)
  from session_creation_and_retention [of "mk_event ''SessionStart'' ''A''" "''A''"
      session_b_store 2 user_hello "new_handler session_b_store" "\<lambda>l. JSONDecodeError" None "''B''"
      "[ClearApproval ''B'', ProcessEvent 3 (mk_event ''SessionEnd'' ''B'')]"] a b c
  show ?thesis by simp
qed

text \<open>
  The amended C7 at an unknown event for session \<open>B\<close>, and at one without a session,
  inserted between two events of session \<open>A\<close>.
\<close>

theorem unknown_event_insertion_witness:
  "ev_type unknown_for_b \<notin> Some ` set handled_types
   \<and> ev_type unknown_for_none \<notin> Some ` set handled_types
   \<and> sessions (process_events ([(1, mk_event ''SessionStart'' ''A'')] @ [(3, mk_event ''UserPromptSubmit'' ''A'')]) empty_store) ''A'' \<noteq> None
   \<and> sessions (process_events ([(1, mk_event ''SessionStart'' ''A'')] @ (2, unknown_for_b) # [(3, mk_event ''UserPromptSubmit'' ''A'')]) empty_store) ''A''
       = sessions (process_events ([(1, mk_event ''SessionStart'' ''A'')] @ [(3, mk_event ''UserPromptSubmit'' ''A'')]) empty_store) ''A''
   \<and> sessions (process_events ([(1, mk_event ''SessionStart'' ''A'')] @ [(3, mk_event ''UserPromptSubmit'' ''A'')]) empty_store) ''B'' = None
   \<and> ev_session_id unknown_for_b = Some ''B''
   \<and> map_option untimed (sessions (process_events ([(1, mk_event ''SessionStart'' ''A'')] @ (2, unknown_for_b) # [(3, mk_event ''UserPromptSubmit'' ''A'')]) empty_store) ''B'')
       = Some (untimed (new_session ''B'' 0))
   \<and> ev_session_id unknown_for_none = None
   \<and> process_events ([(1, mk_event ''SessionStart'' ''A'')] @ (2, unknown_for_none) # [(3, mk_event ''UserPromptSubmit'' ''A'')]) empty_store
       = process_events ([(1, mk_event ''SessionStart'' ''A'')] @ [(3, mk_event ''UserPromptSubmit'' ''A'')]) empty_store"
proof -
  have u: "ev_type unknown_for_b \<notin> Some ` set handled_types"
    by (simp add: unknown_for_b_def mk_event_def handled_types_def image_iff)
  have v: "ev_type unknown_for_none \<notin> Some ` set handled_types"
    by (simp add: unknown_for_none_def handled_types_def image_iff)
  have a: "ev_session_id unknown_for_b \<noteq> Some ''A''" "ev_session_id unknown_for_b = Some ''B''"
    "''B'' \<noteq> []" "ev_session_id unknown_for_none = None"
    by (simp_all add: unknown_for_b_def unknown_for_none_def mk_event_def)
  have b: "sessions (process_events ([(1, mk_event ''SessionStart'' ''A'')] @ [(3, mk_event ''UserPromptSubmit'' ''A'')]) empty_store) ''A'' \<noteq> None"
    "sessions (process_events ([(1, mk_event ''SessionStart'' ''A'')] @ [(3, mk_event ''UserPromptSubmit'' ''A'')]) empty_store) ''B'' = None"
    by (simp_all add: eval_defs)
  from unknown_event_insertion [OF u, where k = "''A''" and t = 2 and st = empty_store
      and ?S1.0 = "[(1, mk_event ''SessionStart'' ''A'')]"
      and ?S2.0 = "[(3, mk_event ''UserPromptSubmit'' ''A'')]"]
    unknown_event_insertion [OF u, where k = "''B''" and t = 2 and st = empty_store
      and ?S1.0 = "[(1, mk_event ''SessionStart'' ''A'')]"
      and ?S2.0 = "[(3, mk_event ''UserPromptSubmit'' ''A'')]"]
    unknown_event_insertion [OF v, where k = "''A''" and t = 2 and st = empty_store
      and ?S1.0 = "[(1, mk_event ''SessionStart'' ''A'')]"
      and ?S2.0 = "[(3, mk_event ''UserPromptSubmit'' ''A'')]"] u v a b
  show ?thesis by blast
qed

text \<open>
  C7 as stated fails: an event of unknown type for session \<open>B\<close>, inserted into the empty
  sequence, creates session \<open>B\<close>.
\<close>

theorem unknown_event_creates_session_counterexample:
  "sessions (process_events [] empty_store) ''B'' = None
   \<and> sessions (process_events [(2, unknown_for_b)] empty_store) ''B''
       = Some \<lparr>session_id = ''B'', phase = IDLE, active_tool = None, pending_approval = None,
               tools = [], conversation = [], created_at = 2, updated_at = 2\<rparr>"
  by (simp add: unknown_for_b_def eval_defs)

section \<open>The log tailer and the reset on /clear\<close>

lemma lines_from_feed [simp]:
  "lines_from cur (CHR 0x0A # b) = (cur @ [CHR 0x0A]) # lines_from [] b"
  by (cases b) simp_all




























end
